theory Spec2Isabelle
  imports Main "HOL-Library.Word"
begin

section \<open>The to-do list manager of \<^verbatim>\<open>src/main.cpp\<close>\<close>

subsection \<open>TaskMemento and Task\<close>

text \<open>
  A \<^verbatim>\<open>TaskMemento\<close> has three private fields that are only read through their getters;
  the record's fields carry the getters' names. A \<^verbatim>\<open>std::string\<close> is a byte sequence
  compared byte by byte, which is equality on \<^typ>\<open>string\<close>.
\<close>

record TaskMemento =
  getDescription :: string
  getCompletedStatus :: bool
  getDueDate :: string

record Task =
  description :: string
  completed :: bool
  dueDate :: string
  tags :: "string list"

text \<open>\<^verbatim>\<open>Task::Builder\<close>: the description is required, \<^verbatim>\<open>completed\<close> starts false, the due
  date and the tags start empty and are replaced by the two setters.\<close>

definition Builder :: "string \<Rightarrow> Task" where
  "Builder desc = \<lparr>description = desc, completed = False, dueDate = [], tags = []\<rparr>"

definition setDueDate :: "string \<Rightarrow> Task \<Rightarrow> Task" where
  "setDueDate date b = b\<lparr>dueDate := date\<rparr>"

definition setTags :: "string list \<Rightarrow> Task \<Rightarrow> Task" where
  "setTags taskTags b = b\<lparr>tags := taskTags\<rparr>"

definition markCompleted :: "Task \<Rightarrow> Task" where
  "markCompleted t = (if \<not> completed t then t\<lparr>completed := True\<rparr> else t)"

definition markPending :: "Task \<Rightarrow> Task" where
  "markPending t = (if completed t then t\<lparr>completed := False\<rparr> else t)"

definition isCompleted :: "Task \<Rightarrow> bool" where
  "isCompleted t = completed t"

definition save :: "Task \<Rightarrow> TaskMemento" where
  "save t = \<lparr>getDescription = description t, getCompletedStatus = completed t,
             getDueDate = dueDate t\<rparr>"

definition restore :: "Task \<Rightarrow> TaskMemento \<Rightarrow> Task" where
  "restore t memento =
     t\<lparr>description := getDescription memento,
       completed := getCompletedStatus memento,
       dueDate := getDueDate memento\<rparr>"

subsection \<open>TaskHistory\<close>

text \<open>
  The two \<^verbatim>\<open>std::stack\<close> members are lists whose head is the top of the stack.
  \<^verbatim>\<open>top()\<close> and \<^verbatim>\<open>pop()\<close> on an empty stack are undefined behaviour in C++; the model
  makes that a fault value, so that a caller that could reach it is seen to.
\<close>

record TaskHistory =
  history :: "TaskMemento list"
  redoStack :: "TaskMemento list"

datatype fault = EmptyStackAccess

definition new_TaskHistory :: TaskHistory where
  "new_TaskHistory = \<lparr>history = [], redoStack = []\<rparr>"

definition addMemento :: "TaskHistory \<Rightarrow> TaskMemento \<Rightarrow> TaskHistory" where
  "addMemento h memento = \<lparr>history = memento # history h, redoStack = []\<rparr>"

definition getMemento :: "TaskHistory \<Rightarrow> fault + (TaskMemento \<times> TaskHistory)" where
  "getMemento h =
     (case history h of
        [] \<Rightarrow> Inl EmptyStackAccess
      | memento # rest \<Rightarrow>
          Inr (memento, \<lparr>history = rest, redoStack = memento # redoStack h\<rparr>))"

definition isEmpty :: "TaskHistory \<Rightarrow> bool" where
  "isEmpty h = (history h = [])"

definition isRedoStackEmpty :: "TaskHistory \<Rightarrow> bool" where
  "isRedoStackEmpty h = (redoStack h = [])"

text \<open>\<^verbatim>\<open>TaskHistory::redo\<close> (the manager has a method of the same name, below).\<close>

definition history_redo :: "TaskHistory \<Rightarrow> fault + (TaskMemento \<times> TaskHistory)" where
  "history_redo h =
     (case redoStack h of
        [] \<Rightarrow> Inl EmptyStackAccess
      | memento # rest \<Rightarrow>
          Inr (memento, \<lparr>history = memento # history h, redoStack = rest\<rparr>))"

subsection \<open>ToDoListManager\<close>

text \<open>
  The manager owns the task vector and two \<^verbatim>\<open>TaskHistory\<close> objects, the members
  \<^verbatim>\<open>history\<close> and \<^verbatim>\<open>redoStack\<close>; they are the fields \<open>mgr_history\<close> and \<open>mgr_redoStack\<close>
  here, since \<open>history\<close> and \<open>redoStack\<close> already name the stacks inside a
  \<^verbatim>\<open>TaskHistory\<close>.
\<close>

record ToDoListManager =
  tasks :: "Task list"
  mgr_history :: TaskHistory
  mgr_redoStack :: TaskHistory

definition new_ToDoListManager :: ToDoListManager where
  "new_ToDoListManager =
     \<lparr>tasks = [], mgr_history = new_TaskHistory, mgr_redoStack = new_TaskHistory\<rparr>"

text \<open>
  An index is a C++ \<^verbatim>\<open>int\<close>, a 32-bit two's complement value. In
  \<^verbatim>\<open>index < tasks.size()\<close> and in \<^verbatim>\<open>tasks[index]\<close> it is converted to the 64-bit unsigned
  \<^verbatim>\<open>size_t\<close>; in \<^verbatim>\<open>tasks.begin() + index\<close> it is used as a signed offset.
\<close>

definition to_size_t :: "32 word \<Rightarrow> nat" where
  "to_size_t index = unat (scast index :: 64 word)"

definition index_ok :: "32 word \<Rightarrow> Task list \<Rightarrow> bool" where
  "index_ok index ts = (0 \<le> sint index \<and> to_size_t index < length ts)"

definition addTask :: "Task \<Rightarrow> ToDoListManager \<Rightarrow> ToDoListManager" where
  "addTask task s =
     s\<lparr>tasks := tasks s @ [task],
       mgr_history := addMemento (mgr_history s) (save task)\<rparr>"

definition markTaskCompleted :: "32 word \<Rightarrow> ToDoListManager \<Rightarrow> ToDoListManager" where
  "markTaskCompleted index s =
     (if index_ok index (tasks s) \<and> \<not> isCompleted (tasks s ! to_size_t index)
      then s\<lparr>mgr_history := addMemento (mgr_history s) (save (tasks s ! to_size_t index)),
             tasks := (tasks s)[to_size_t index := markCompleted (tasks s ! to_size_t index)]\<rparr>
      else s)"

definition markTaskPending :: "32 word \<Rightarrow> ToDoListManager \<Rightarrow> ToDoListManager" where
  "markTaskPending index s =
     (if index_ok index (tasks s) \<and> isCompleted (tasks s ! to_size_t index)
      then s\<lparr>mgr_history := addMemento (mgr_history s) (save (tasks s ! to_size_t index)),
             tasks := (tasks s)[to_size_t index := markPending (tasks s ! to_size_t index)]\<rparr>
      else s)"

definition erase :: "nat \<Rightarrow> 'a list \<Rightarrow> 'a list" where
  "erase n xs = take n xs @ drop (Suc n) xs"

definition deleteTask :: "32 word \<Rightarrow> ToDoListManager \<Rightarrow> ToDoListManager" where
  "deleteTask index s =
     (if index_ok index (tasks s)
      then s\<lparr>mgr_history := addMemento (mgr_history s) (save (tasks s ! to_size_t index)),
             tasks := erase (nat (sint index)) (tasks s)\<rparr>
      else s)"

text \<open>
  The loop of \<^verbatim>\<open>undo\<close> and \<^verbatim>\<open>redo\<close>: walk the tasks in order, restore the first one
  whose description equals the memento's, and \<^verbatim>\<open>break\<close>.
\<close>

fun restore_loop :: "TaskMemento \<Rightarrow> Task list \<Rightarrow> Task list" where
  "restore_loop memento [] = []"
| "restore_loop memento (task # rest) =
     (if description task = getDescription memento
      then restore task memento # rest
      else task # restore_loop memento rest)"

text \<open>\<^verbatim>\<open>undo\<close> and \<^verbatim>\<open>redo\<close> return the line they print together with the new state.\<close>

definition undo :: "ToDoListManager \<Rightarrow> fault + (string \<times> ToDoListManager)" where
  "undo s =
     (if \<not> isEmpty (mgr_history s) then
        (case getMemento (mgr_history s) of
           Inl e \<Rightarrow> Inl e
         | Inr (memento, h) \<Rightarrow>
             Inr (''Undo successful.'',
                  \<lparr>tasks = restore_loop memento (tasks s),
                   mgr_history = h,
                   mgr_redoStack = addMemento (mgr_redoStack s) memento\<rparr>))
      else Inr (''Nothing to undo.'', s))"

definition redo :: "ToDoListManager \<Rightarrow> fault + (string \<times> ToDoListManager)" where
  "redo s =
     (if \<not> isRedoStackEmpty (mgr_redoStack s) then
        (case history_redo (mgr_redoStack s) of
           Inl e \<Rightarrow> Inl e
         | Inr (memento, r) \<Rightarrow>
             Inr (''Redo successful.'',
                  \<lparr>tasks = restore_loop memento (tasks s),
                   mgr_history = addMemento (mgr_history s) memento,
                   mgr_redoStack = r\<rparr>))
      else Inr (''Nothing to redo.'', s))"

subsection \<open>Reachable states\<close>

text \<open>
  The states of a manager that starts empty and receives any sequence of the six calls
  that \<^verbatim>\<open>main\<close> makes on it. A call of \<^verbatim>\<open>undo\<close> or \<^verbatim>\<open>redo\<close> continues the run only when it
  returns.
\<close>

inductive reachable :: "ToDoListManager \<Rightarrow> bool" where
  r_new: "reachable new_ToDoListManager"
| r_addTask: "reachable s \<Longrightarrow> reachable (addTask task s)"
| r_markTaskCompleted: "reachable s \<Longrightarrow> reachable (markTaskCompleted index s)"
| r_markTaskPending: "reachable s \<Longrightarrow> reachable (markTaskPending index s)"
| r_deleteTask: "reachable s \<Longrightarrow> reachable (deleteTask index s)"
| r_undo: "reachable s \<Longrightarrow> undo s = Inr (out, s') \<Longrightarrow> reachable s'"
| r_redo: "reachable s \<Longrightarrow> redo s = Inr (out, s') \<Longrightarrow> reachable s'"

subsection \<open>Example runs\<close>

text \<open>The tasks and calls of the scenarios of the specification, used to run the model.\<close>

definition buy_milk :: Task where
  "buy_milk = Builder ''Buy milk''"

definition call_alice :: Task where
  "call_alice = setDueDate ''2024-01-01'' (Builder ''Call Alice'')"

definition milk_added :: ToDoListManager where
  "milk_added = addTask buy_milk new_ToDoListManager"

definition milk_added_undone :: ToDoListManager where
  "milk_added_undone =
     \<lparr>tasks = [buy_milk],
      mgr_history = \<lparr>history = [], redoStack = [save buy_milk]\<rparr>,
      mgr_redoStack = \<lparr>history = [save buy_milk], redoStack = []\<rparr>\<rparr>"

definition two_tasks :: ToDoListManager where
  "two_tasks = addTask call_alice milk_added"

definition milk_completed :: ToDoListManager where
  "milk_completed = markTaskCompleted 0 two_tasks"

definition milk_undone :: ToDoListManager where
  "milk_undone =
     \<lparr>tasks = [buy_milk, call_alice],
      mgr_history = \<lparr>history = [save call_alice, save buy_milk], redoStack = [save buy_milk]\<rparr>,
      mgr_redoStack = \<lparr>history = [save buy_milk], redoStack = []\<rparr>\<rparr>"

section \<open>Properties\<close>

subsection \<open>Indices\<close>

lemma uint_scast_32_64: "uint (scast (index :: 32 word) :: 64 word) = sint index mod 2 ^ 64"
proof -
  have "uint (word_of_int (sint index) :: 64 word) = sint index mod 2 ^ LENGTH(64)"
    by (rule uint_word_of_int)
  moreover have "LENGTH(64) = 64" by simp
  ultimately show ?thesis by (simp only: scast_eq)
qed

lemma sint_32_mod: "0 \<le> sint (index :: 32 word) \<Longrightarrow> sint index mod 2 ^ 64 = sint index"
proof -
  assume nonneg: "0 \<le> sint index"
  have "sint index < 2 ^ 31" using sint_lt [of index] by simp
  also have "(2::int) ^ 31 < 2 ^ 64" by simp
  finally have "sint index < 2 ^ 64" .
  with nonneg show ?thesis by (rule mod_pos_pos_trivial)
qed

text \<open>Converting a non-negative \<^verbatim>\<open>int\<close> to \<^verbatim>\<open>size_t\<close> keeps its value.\<close>

lemma to_size_t_nonneg: "0 \<le> sint index \<Longrightarrow> to_size_t index = nat (sint index)"
  unfolding to_size_t_def
  using uint_scast_32_64 [of index] sint_32_mod [of index]
  by (simp only: unat_eq_nat_uint)

text \<open>The guard of the three indexed calls is the mathematical range check.\<close>

lemma index_ok_iff:
  "index_ok index ts \<longleftrightarrow> 0 \<le> sint index \<and> sint index < int (length ts)"
proof (cases "0 \<le> sint index")
  case True
  then show ?thesis by (simp add: index_ok_def to_size_t_nonneg nat_less_iff)
next
  case False
  then show ?thesis by (simp add: index_ok_def)
qed

lemma to_size_t_0: "to_size_t 0 = 0"
  by (simp add: to_size_t_def)

lemma index_ok_0: "index_ok 0 ts \<longleftrightarrow> ts \<noteq> []"
  by (simp add: index_ok_def to_size_t_0)

subsection \<open>The two branches of undo and redo\<close>

lemma undo_empty: "history (mgr_history s) = [] \<Longrightarrow> undo s = Inr (''Nothing to undo.'', s)"
  by (simp add: undo_def isEmpty_def)

lemma undo_nonempty:
  "history (mgr_history s) = memento # rest \<Longrightarrow>
   undo s = Inr (''Undo successful.'',
      \<lparr>tasks = restore_loop memento (tasks s),
       mgr_history = \<lparr>history = rest, redoStack = memento # redoStack (mgr_history s)\<rparr>,
       mgr_redoStack = \<lparr>history = memento # history (mgr_redoStack s), redoStack = []\<rparr>\<rparr>)"
  by (simp add: undo_def isEmpty_def getMemento_def addMemento_def)

lemma redo_empty:
  "redoStack (mgr_redoStack s) = [] \<Longrightarrow> redo s = Inr (''Nothing to redo.'', s)"
  by (simp add: redo_def isRedoStackEmpty_def)

lemma redo_nonempty:
  "redoStack (mgr_redoStack s) = memento # rest \<Longrightarrow>
   redo s = Inr (''Redo successful.'',
      \<lparr>tasks = restore_loop memento (tasks s),
       mgr_history = \<lparr>history = memento # history (mgr_history s), redoStack = []\<rparr>,
       mgr_redoStack = \<lparr>history = memento # history (mgr_redoStack s), redoStack = rest\<rparr>\<rparr>)"
  by (simp add: redo_def isRedoStackEmpty_def history_redo_def addMemento_def)

text \<open>Both calls return: the guards keep \<^verbatim>\<open>top()\<close> and \<^verbatim>\<open>pop()\<close> off an empty stack.\<close>

lemma undo_returns: "\<exists>out s'. undo s = Inr (out, s')"
  by (cases "history (mgr_history s)") (simp_all add: undo_empty undo_nonempty)

lemma redo_returns: "\<exists>out s'. redo s = Inr (out, s')"
  by (cases "redoStack (mgr_redoStack s)") (simp_all add: redo_empty redo_nonempty)

subsection \<open>The restoring loop\<close>

lemma restore_fields:
  "restore t memento =
     \<lparr>description = getDescription memento, completed = getCompletedStatus memento,
      dueDate = getDueDate memento, tags = tags t\<rparr>"
  by (cases t) (simp add: restore_def)

lemma restore_loop_length: "length (restore_loop memento ts) = length ts"
  by (induction ts) simp_all

lemma restore_loop_descriptions:
  "map description (restore_loop memento ts) = map description ts"
  by (induction ts) (simp_all add: restore_def)

lemma restore_loop_no_match:
  "\<forall>t \<in> set ts. description t \<noteq> getDescription memento \<Longrightarrow> restore_loop memento ts = ts"
  by (induction ts) simp_all

lemma restore_loop_first_match:
  "i < length ts \<Longrightarrow> description (ts ! i) = getDescription memento \<Longrightarrow>
   \<forall>j<i. description (ts ! j) \<noteq> getDescription memento \<Longrightarrow>
   restore_loop memento ts = ts[i := restore (ts ! i) memento]"
proof (induction ts arbitrary: i)
  case Nil
  then show ?case by simp
next
  case (Cons t ts)
  show ?case
  proof (cases i)
    case 0
    with Cons.prems show ?thesis by simp
  next
    case (Suc k)
    with Cons.prems have "description t \<noteq> getDescription memento" by auto
    moreover from Suc Cons.prems
    have "restore_loop memento ts = ts[k := restore (ts ! k) memento]"
      by (intro Cons.IH) auto
    ultimately show ?thesis using Suc by simp
  qed
qed

subsection \<open>The stack that redo consults\<close>

text \<open>
  Only \<^verbatim>\<open>addMemento\<close> is ever called on the manager's member \<^verbatim>\<open>redoStack\<close> (by
  \<^verbatim>\<open>undo\<close>), and \<^verbatim>\<open>addMemento\<close> pushes on the inner \<^verbatim>\<open>history\<close> stack and empties the
  inner \<^verbatim>\<open>redoStack\<close>.
\<close>

lemma reachable_redoStack_empty: "reachable s \<Longrightarrow> redoStack (mgr_redoStack s) = []"
proof (induction rule: reachable.induct)
  case r_new
  show ?case by (simp add: new_ToDoListManager_def new_TaskHistory_def)
next
  case (r_addTask s task)
  then show ?case by (simp add: addTask_def)
next
  case (r_markTaskCompleted s index)
  then show ?case by (simp add: markTaskCompleted_def)
next
  case (r_markTaskPending s index)
  then show ?case by (simp add: markTaskPending_def)
next
  case (r_deleteTask s index)
  then show ?case by (simp add: deleteTask_def)
next
  case (r_undo s out s')
  show ?case
  proof (cases "history (mgr_history s)")
    case Nil
    with r_undo show ?thesis by (simp add: undo_empty)
  next
    case (Cons memento rest)
    with r_undo.hyps(2) show ?thesis by (auto simp add: undo_nonempty)
  qed
next
  case (r_redo s out s')
  then show ?case by (simp add: redo_empty)
qed

subsection \<open>Recording calls and the two history objects\<close>

text \<open>
  The four recording calls work on the member \<^verbatim>\<open>history\<close> only: the member \<^verbatim>\<open>redoStack\<close>,
  where \<^verbatim>\<open>undo\<close> stores what it pops, is the same object before and after.
\<close>

lemma recording_keeps_mgr_redoStack:
  "mgr_redoStack (addTask task s) = mgr_redoStack s"
  "mgr_redoStack (markTaskCompleted index s) = mgr_redoStack s"
  "mgr_redoStack (markTaskPending index s) = mgr_redoStack s"
  "mgr_redoStack (deleteTask index s) = mgr_redoStack s"
  by (simp_all add: addTask_def markTaskCompleted_def markTaskPending_def deleteTask_def)

text \<open>
  A call that records empties the \<^verbatim>\<open>redoStack\<close> inside the member \<^verbatim>\<open>history\<close>, and in a
  reachable state the \<^verbatim>\<open>redo\<close> that follows finds nothing.
\<close>

lemma recording_then_redo:
  assumes "reachable s"
    and "s' = addTask task s \<or> s' = markTaskCompleted index s \<or>
         s' = markTaskPending index s \<or> s' = deleteTask index s"
    and "history (mgr_history s') \<noteq> history (mgr_history s)"
  shows "redoStack (mgr_history s') = [] \<and> redo s' = Inr (''Nothing to redo.'', s')"
proof -
  from assms(1,2) have "reachable s'"
    by (auto intro: reachable.intros)
  then have "redo s' = Inr (''Nothing to redo.'', s')"
    by (simp add: reachable_redoStack_empty redo_empty)
  moreover from assms(2,3) have "redoStack (mgr_history s') = []"
    by (auto simp add: addTask_def markTaskCompleted_def markTaskPending_def deleteTask_def
        addMemento_def split: if_splits)
  ultimately show ?thesis by simp
qed

subsection \<open>Facts about the example runs\<close>

lemmas example_defs =
  buy_milk_def call_alice_def milk_added_def two_tasks_def milk_completed_def
  milk_undone_def milk_added_undone_def
  Builder_def setDueDate_def new_ToDoListManager_def new_TaskHistory_def

lemmas call_defs =
  addTask_def markTaskCompleted_def markTaskPending_def deleteTask_def
  addMemento_def save_def restore_def markCompleted_def markPending_def isCompleted_def
  index_ok_0 to_size_t_0

lemma undo_milk_added: "undo milk_added = Inr (''Undo successful.'', milk_added_undone)"
  by (simp add: example_defs call_defs undo_def isEmpty_def getMemento_def)

lemma undo_milk_completed: "undo milk_completed = Inr (''Undo successful.'', milk_undone)"
  by (simp add: example_defs call_defs undo_def isEmpty_def getMemento_def)

lemma reachable_milk_added: "reachable milk_added"
  unfolding milk_added_def by (intro reachable.intros)

lemma reachable_two_tasks: "reachable two_tasks"
  unfolding two_tasks_def by (intro r_addTask reachable_milk_added)

lemma reachable_milk_completed: "reachable milk_completed"
  unfolding milk_completed_def by (intro r_markTaskCompleted reachable_two_tasks)

lemma reachable_milk_undone: "reachable milk_undone"
  using reachable_milk_completed undo_milk_completed by (rule r_undo)

lemma reachable_milk_added_undone: "reachable milk_added_undone"
  using reachable_milk_added undo_milk_added by (rule r_undo)

section \<open>The claims\<close>

subsection \<open>Undo followed by redo\<close>

text \<open>
  Claim C1 says that \<open>n\<close> calls of \<^verbatim>\<open>undo\<close> followed by \<open>n\<close> calls of \<^verbatim>\<open>redo\<close> give back the
  tasks as they were before the first \<^verbatim>\<open>undo\<close>. The run add "Buy milk", add "Call Alice",
  complete task 0, undo, redo (\<open>n = 1\<close>, recorded depth 3) shows what the code does:
  \<^verbatim>\<open>undo\<close> sets "Buy milk" back to pending, \<^verbatim>\<open>redo\<close> prints "Nothing to redo." and
  changes nothing, and the tasks differ from those before the \<^verbatim>\<open>undo\<close>.
\<close>

theorem C1_undo_redo_not_inverse:
  "undo milk_completed = Inr (''Undo successful.'', milk_undone) \<and>
   redo milk_undone = Inr (''Nothing to redo.'', milk_undone) \<and>
   tasks milk_undone \<noteq> tasks milk_completed"
proof -
  have "redo milk_undone = Inr (''Nothing to redo.'', milk_undone)"
    by (rule redo_empty) (simp add: milk_undone_def)
  moreover have "tasks milk_undone \<noteq> tasks milk_completed"
    by (simp add: example_defs call_defs)
  ultimately show ?thesis using undo_milk_completed by simp
qed

text \<open>
  Claim C2 says that after an \<^verbatim>\<open>undo\<close> that consumed a snapshot the redo trail is not
  empty and \<^verbatim>\<open>redo\<close> restores. The run add "Buy milk", undo, redo: \<^verbatim>\<open>undo\<close> consumes the
  one snapshot and stores it on the \<^verbatim>\<open>history\<close> stack of the member \<^verbatim>\<open>redoStack\<close>, the
  stack that \<^verbatim>\<open>redo\<close> tests (the inner \<^verbatim>\<open>redoStack\<close> of that member) is empty, and \<^verbatim>\<open>redo\<close>
  prints "Nothing to redo." and changes nothing.
\<close>

theorem C2_redo_after_undo_reports_nothing:
  "history (mgr_history milk_added) = [save buy_milk] \<and>
   undo milk_added = Inr (''Undo successful.'', milk_added_undone) \<and>
   history (mgr_history milk_added_undone) = [] \<and>
   history (mgr_redoStack milk_added_undone) = [save buy_milk] \<and>
   redoStack (mgr_redoStack milk_added_undone) = [] \<and>
   redo milk_added_undone = Inr (''Nothing to redo.'', milk_added_undone)"
proof -
  have "redo milk_added_undone = Inr (''Nothing to redo.'', milk_added_undone)"
    by (rule redo_empty) (simp add: milk_added_undone_def)
  moreover have "history (mgr_history milk_added) = [save buy_milk]"
    by (simp add: milk_added_def addTask_def addMemento_def new_ToDoListManager_def
        new_TaskHistory_def)
  ultimately show ?thesis using undo_milk_added by (simp add: milk_added_undone_def)
qed

subsection \<open>Redo in reachable states\<close>

text \<open>
  Claim C3: in every state reachable through addTask, markTaskCompleted,
  markTaskPending, deleteTask, undo and redo, the stack that \<^verbatim>\<open>redo\<close> consults (the inner
  \<^verbatim>\<open>redoStack\<close> of the manager's second \<^verbatim>\<open>TaskHistory\<close>) is empty, so \<^verbatim>\<open>redo\<close> takes its
  "Nothing to redo." branch and returns the state as it was: tasks and both history
  objects unchanged.
\<close>

theorem C3_redo_never_restores:
  "reachable s \<Longrightarrow>
   redoStack (mgr_redoStack s) = [] \<and> redo s = Inr (''Nothing to redo.'', s)"
  by (simp add: reachable_redoStack_empty redo_empty)

text \<open>
  Claim C3 at the state reached by add "Buy milk", add "Call Alice", complete task 0,
  undo: the snapshot that \<^verbatim>\<open>undo\<close> stored is on the second object's \<^verbatim>\<open>history\<close> stack and
  \<^verbatim>\<open>redo\<close> still finds nothing.
\<close>

theorem C3_redo_never_restores_witness:
  "reachable milk_undone \<and> history (mgr_redoStack milk_undone) = [save buy_milk] \<and>
   redoStack (mgr_redoStack milk_undone) = [] \<and>
   redo milk_undone = Inr (''Nothing to redo.'', milk_undone)"
  using C3_redo_never_restores [OF reachable_milk_undone] reachable_milk_undone
  by (simp add: milk_undone_def)


subsection \<open>Completing and then reopening a task\<close>

text \<open>
  Claim C5 says that markTaskCompleted(i) followed by markTaskPending(i) gives task \<open>i\<close>
  its original completed flag back, for every valid \<open>i\<close>. For a task that is already
  completed it does not: in the state after add "Buy milk", add "Call Alice", complete
  task 0, index 0 is valid and task 0 is completed; markTaskCompleted(0) is then a no-op
  and markTaskPending(0) leaves the task pending.
\<close>

theorem C5_completed_task_counterexample:
  "0 \<le> sint (0 :: 32 word) \<and> sint (0 :: 32 word) < int (length (tasks milk_completed)) \<and>
   completed (tasks milk_completed ! nat (sint (0 :: 32 word))) \<and>
   \<not> completed (tasks (markTaskPending 0 (markTaskCompleted 0 milk_completed))
                  ! nat (sint (0 :: 32 word)))"
  by (simp add: example_defs call_defs)

text \<open>
  Claim C5 as the code has it: for every valid index \<open>i\<close>, markTaskCompleted(i) followed
  by markTaskPending(i) changes nothing in the task vector but the completed flag of task
  \<open>i\<close>, which is false afterwards; the due date of task \<open>i\<close> is the original one. So the
  original flag comes back exactly when the task was pending.
\<close>

theorem C5_complete_then_pending:
  assumes "0 \<le> sint index" and "sint index < int (length (tasks s))"
  shows "tasks (markTaskPending index (markTaskCompleted index s)) =
           (tasks s)[nat (sint index) := (tasks s ! nat (sint index))\<lparr>completed := False\<rparr>] \<and>
         dueDate (tasks (markTaskPending index (markTaskCompleted index s)) ! nat (sint index)) =
           dueDate (tasks s ! nat (sint index)) \<and>
         \<not> completed (tasks (markTaskPending index (markTaskCompleted index s)) ! nat (sint index))"
proof -
  from assms have ok: "index_ok index (tasks s)" and lt: "nat (sint index) < length (tasks s)"
    by (simp_all add: index_ok_iff nat_less_iff)
  have conv: "to_size_t index = nat (sint index)"
    using assms(1) by (rule to_size_t_nonneg)
  have eq: "tasks (markTaskPending index (markTaskCompleted index s)) =
           (tasks s)[nat (sint index) := (tasks s ! nat (sint index))\<lparr>completed := False\<rparr>]"
  proof (cases "completed (tasks s ! nat (sint index))")
    case True
    with ok lt conv show ?thesis
      by (simp add: markTaskCompleted_def markTaskPending_def isCompleted_def markPending_def)
  next
    case False
    with ok lt conv show ?thesis
      by (simp add: markTaskCompleted_def markTaskPending_def isCompleted_def markPending_def
          markCompleted_def index_ok_def)
  qed
  from lt show ?thesis unfolding eq by simp
qed

text \<open>
  Claim C5 (amended) at the two-task list, whose task 0 is pending: the two calls give the
  original tasks back.
\<close>

theorem C5_complete_then_pending_witness:
  "0 \<le> sint (0 :: 32 word) \<and> sint (0 :: 32 word) < int (length (tasks two_tasks)) \<and>
   tasks (markTaskPending 0 (markTaskCompleted 0 two_tasks)) = tasks two_tasks"
proof -
  have a: "0 \<le> sint (0 :: 32 word)" by simp
  have b: "sint (0 :: 32 word) < int (length (tasks two_tasks))"
    by (simp add: example_defs call_defs)
  have "(tasks two_tasks)[nat (sint (0 :: 32 word)) :=
          (tasks two_tasks ! nat (sint (0 :: 32 word)))\<lparr>completed := False\<rparr>] = tasks two_tasks"
    by (simp add: example_defs call_defs)
  with a b C5_complete_then_pending [OF a b] show ?thesis by simp
qed

subsection \<open>What undo does\<close>

text \<open>
  Claim C6: when the undo history is not empty, \<^verbatim>\<open>undo\<close> pops its most recent snapshot,
  pushes it on the redo side (the \<^verbatim>\<open>redoStack\<close> of the recording object and the \<^verbatim>\<open>history\<close>
  stack of the member \<^verbatim>\<open>redoStack\<close>), and overwrites description, completed flag and due
  date of the first task, in vector order, whose description equals the snapshot's; all
  other tasks, and that task's tags, stay. When no description matches, the tasks are
  unchanged and the snapshot is consumed all the same.
\<close>

theorem C6_undo_restores_first_match:
  assumes "history (mgr_history s) = memento # rest"
  shows "\<exists>s'. undo s = Inr (''Undo successful.'', s') \<and>
           history (mgr_history s') = rest \<and>
           redoStack (mgr_history s') = memento # redoStack (mgr_history s) \<and>
           history (mgr_redoStack s') = memento # history (mgr_redoStack s) \<and>
           length (tasks s') = length (tasks s) \<and>
           ((\<forall>t \<in> set (tasks s). description t \<noteq> getDescription memento) \<longrightarrow>
              tasks s' = tasks s) \<and>
           (\<forall>i < length (tasks s).
              description (tasks s ! i) = getDescription memento \<and>
              (\<forall>j < i. description (tasks s ! j) \<noteq> getDescription memento) \<longrightarrow>
              tasks s' = (tasks s)[i :=
                \<lparr>description = getDescription memento,
                 completed = getCompletedStatus memento,
                 dueDate = getDueDate memento,
                 tags = tags (tasks s ! i)\<rparr>])"
proof -
  have first: "restore_loop memento (tasks s) = (tasks s)[i :=
                \<lparr>description = getDescription memento,
                 completed = getCompletedStatus memento,
                 dueDate = getDueDate memento,
                 tags = tags (tasks s ! i)\<rparr>]"
    if "i < length (tasks s)" "description (tasks s ! i) = getDescription memento"
      "\<forall>j < i. description (tasks s ! j) \<noteq> getDescription memento" for i
    using restore_loop_first_match [OF that] by (simp add: restore_fields)
  show ?thesis
    unfolding undo_nonempty [OF assms]
    by (simp add: restore_loop_length restore_loop_no_match first)
qed

text \<open>
  Claim C6 at the state after add "Buy milk", add "Call Alice", complete task 0: \<^verbatim>\<open>undo\<close>
  pops the snapshot of the pending "Buy milk" and task 0 is pending again.
\<close>

theorem C6_undo_restores_first_match_witness:
  "history (mgr_history milk_completed) = save buy_milk # [save call_alice, save buy_milk] \<and>
   tasks milk_completed = [buy_milk\<lparr>completed := True\<rparr>, call_alice] \<and>
   undo milk_completed = Inr (''Undo successful.'', milk_undone) \<and>
   tasks milk_undone = [buy_milk, call_alice]"
proof -
  have h: "history (mgr_history milk_completed)
             = save buy_milk # [save call_alice, save buy_milk]"
    by (simp add: example_defs call_defs)
  have t: "tasks milk_completed = [buy_milk\<lparr>completed := True\<rparr>, call_alice]"
    by (simp add: example_defs call_defs)
  from C6_undo_restores_first_match [OF h]
  obtain s' where u: "undo milk_completed = Inr (''Undo successful.'', s')"
    and r: "\<forall>i < length (tasks milk_completed).
              description (tasks milk_completed ! i) = getDescription (save buy_milk) \<and>
              (\<forall>j < i. description (tasks milk_completed ! j) \<noteq> getDescription (save buy_milk)) \<longrightarrow>
              tasks s' = (tasks milk_completed)[i :=
                \<lparr>description = getDescription (save buy_milk),
                 completed = getCompletedStatus (save buy_milk),
                 dueDate = getDueDate (save buy_milk),
                 tags = tags (tasks milk_completed ! i)\<rparr>]"
    by blast
  from r [rule_format, of 0] have "tasks s' = [buy_milk, call_alice]"
    by (simp add: t) (simp add: example_defs save_def)
  moreover from u have "s' = milk_undone" by (simp add: undo_milk_completed)
  ultimately show ?thesis using h t u by simp
qed

text \<open>
  Claim C7 says that each \<^verbatim>\<open>redo\<close> on a non-empty redo trail moves one snapshot from the
  redo side back to the undo side. In the run add, add, complete, undo, redo the undo
  history holds 3 snapshots, \<^verbatim>\<open>undo\<close> leaves 2 there and puts the popped one on both
  redo-side stacks, and \<^verbatim>\<open>redo\<close> prints "Nothing to redo." and moves nothing: the undo
  history still holds 2.
\<close>

theorem C7_redo_moves_nothing_back:
  "length (history (mgr_history milk_completed)) = 3 \<and>
   length (redoStack (mgr_history milk_completed)) = 0 \<and>
   length (history (mgr_redoStack milk_completed)) = 0 \<and>
   undo milk_completed = Inr (''Undo successful.'', milk_undone) \<and>
   length (history (mgr_history milk_undone)) = 2 \<and>
   length (redoStack (mgr_history milk_undone)) = 1 \<and>
   length (history (mgr_redoStack milk_undone)) = 1 \<and>
   redo milk_undone = Inr (''Nothing to redo.'', milk_undone)"
proof -
  have "redo milk_undone = Inr (''Nothing to redo.'', milk_undone)"
    by (rule redo_empty) (simp add: milk_undone_def)
  moreover have "length (history (mgr_history milk_completed)) = 3 \<and>
     length (redoStack (mgr_history milk_completed)) = 0 \<and>
     length (history (mgr_redoStack milk_completed)) = 0"
    by (simp add: example_defs call_defs)
  ultimately show ?thesis using undo_milk_completed by (simp add: milk_undone_def)
qed

subsection \<open>Invalid indices\<close>

text \<open>
  Claim C8: for every index outside \<open>[0, number of tasks)\<close>, markTaskCompleted,
  markTaskPending and deleteTask return the manager unchanged: tasks and both history
  objects are as before.
\<close>

theorem C8_invalid_index_ignored:
  assumes "\<not> (0 \<le> sint index \<and> sint index < int (length (tasks s)))"
  shows "markTaskCompleted index s = s \<and> markTaskPending index s = s \<and> deleteTask index s = s"
proof -
  from assms have "\<not> index_ok index (tasks s)"
    by (simp add: index_ok_iff)
  then show ?thesis
    by (simp add: markTaskCompleted_def markTaskPending_def deleteTask_def)
qed

text \<open>Claim C8 at index 99 on the two-task list.\<close>

theorem C8_invalid_index_ignored_witness:
  "length (tasks two_tasks) = 2 \<and>
   \<not> (0 \<le> sint (99 :: 32 word) \<and> sint (99 :: 32 word) < int (length (tasks two_tasks))) \<and>
   markTaskCompleted 99 two_tasks = two_tasks \<and> markTaskPending 99 two_tasks = two_tasks \<and>
   deleteTask 99 two_tasks = two_tasks"
proof -
  have len: "length (tasks two_tasks) = 2"
    by (simp add: example_defs call_defs)
  then have out: "\<not> (0 \<le> sint (99 :: 32 word) \<and> sint (99 :: 32 word) < int (length (tasks two_tasks)))"
    by simp
  from C8_invalid_index_ignored [OF out] len out show ?thesis by simp
qed

subsection \<open>Undo with nothing recorded\<close>

text \<open>
  Claim C9: when the undo history holds no snapshot, \<^verbatim>\<open>undo\<close> prints "Nothing to undo.",
  returns normally and leaves the tasks and both history objects exactly as they were.
\<close>

theorem C9_undo_on_empty_history:
  "isEmpty (mgr_history s) \<Longrightarrow> undo s = Inr (''Nothing to undo.'', s)"
  by (simp add: undo_def)

text \<open>
  Claim C9 at the state after add "Buy milk", undo, whose undo history is empty again.
\<close>

theorem C9_undo_on_empty_history_witness:
  "isEmpty (mgr_history milk_added_undone) \<and>
   undo milk_added_undone = Inr (''Nothing to undo.'', milk_added_undone)"
proof -
  have e: "isEmpty (mgr_history milk_added_undone)"
    by (simp add: isEmpty_def milk_added_undone_def)
  from C9_undo_on_empty_history [OF e] e show ?thesis by simp
qed

subsection \<open>Descriptions under undo\<close>

text \<open>
  Claim C10: \<^verbatim>\<open>undo\<close> never changes a description. In every state (reachable or not)
  \<^verbatim>\<open>undo\<close> returns, and the tasks afterwards have, position by position, the descriptions
  they had before.
\<close>

theorem C10_undo_keeps_descriptions:
  "\<exists>out s'. undo s = Inr (out, s') \<and> map description (tasks s') = map description (tasks s)"
proof (cases "history (mgr_history s)")
  case Nil
  then show ?thesis by (simp add: undo_empty)
next
  case (Cons memento rest)
  then show ?thesis by (simp add: undo_nonempty restore_loop_descriptions)
qed

end
